theory Spec2Isabelle
  imports Main "HOL-Library.Word"
begin

section \<open>Data model of apiClient.go\<close>

text \<open>
  Go's \<open>[]byte\<close> and \<open>string\<close> are both byte sequences; Isabelle's \<open>char\<close> is a
  byte, so both are \<open>string\<close> here and the conversion \<open>string(body)\<close> is the identity.
  Go's \<open>int\<close> and \<open>time.Duration\<close> (an \<open>int64\<close> of nanoseconds) are 64-bit two's
  complement words: \<open>+\<close> wraps and the comparison of the loop is the signed one.
\<close>

type_synonym bytes = string
type_synonym go_int = "64 word"
type_synonym Duration = "64 word"

text \<open>\<open>http.Header\<close>, that is \<open>map[string][]string\<close>.\<close>

type_synonym Header = "string \<rightharpoonup> string list"

text \<open>A non-nil value of Go's interface \<open>error\<close>, with its message.\<close>

datatype error = Error string

text \<open>A call either returns or panics (a nil pointer dereference).\<close>

datatype 'a outcome = Return 'a | Panic

record http_Client =
  Timeout :: Duration

text \<open>
  The struct \<open>Client\<close>. \<open>HTTPClient\<close> is a pointer: \<open>None\<close> is nil, which a \<open>Client\<close>
  built without \<open>NewClient\<close> can hold.
\<close>

record Client =
  BaseURL :: string
  HTTPClient :: "http_Client option"
  Debug :: bool
  MaxRetries :: go_int
  RetryDelay :: Duration

text \<open>
  The struct \<open>APIRequest\<close>. \<open>Body\<close> is an \<open>interface{}\<close>: \<open>None\<close> is the nil interface,
  \<open>Some b\<close> any other value. \<open>Headers\<close> is a Go map; its pairs are listed in the order
  in which \<open>range\<close> visits them in the call at hand. Go leaves that order open, so one Go
  request is modelled by every list of its pairs, and two calls with the same Go request
  may see two different lists (\<open>same_request\<close> below).
\<close>

record 'b APIRequest =
  Method :: string
  Endpoint :: string
  Headers :: "(string \<times> string) list"
  Body :: "'b option"

text \<open>The struct \<open>APIResponse\<close>.\<close>

record APIResponse =
  StatusCode :: int
  resp_Headers :: Header
  resp_Body :: bytes

text \<open>The fields of \<open>http.Request\<close> that the code reads or writes.\<close>

record http_Request =
  req_Method :: string
  req_URL :: string
  req_Header :: Header
  req_Body :: bytes

text \<open>
  The fields of \<open>http.Response\<close> that the code reads. \<open>body_stream\<close> is what
  \<open>ioutil.ReadAll\<close> makes of \<open>response.Body\<close>: an error, or all the bytes.
\<close>

record http_Response =
  Status :: string
  http_StatusCode :: int
  http_Header :: Header
  body_stream :: "error + bytes"

section \<open>The environment\<close>

text \<open>
  Every call that leaves the package is recorded, in order, in a trace; so is each entry
  into \<open>send\<close>. \<open>Call_Printf\<close> keeps the format string and the arguments of
  \<open>fmt.Printf\<close>.
\<close>

datatype fmt_arg = Arg_string string | Arg_Header Header

datatype 'b event =
    Enter_send
  | Call_Marshal 'b
  | Call_NewRequest string string bytes
  | Call_Printf string "fmt_arg list"
  | Call_Do http_Request
  | Call_ReadAll
  | Call_Close
  | Call_Sleep Duration

text \<open>
  The library functions and the network are parameters: \<open>json.Marshal\<close>,
  \<open>http.NewRequest\<close>, the key canonicalisation of \<open>Header.Set\<close>, and the outcome of
  the \<open>n\<close>-th round trip of the transport (counted from 0) for the request it is given.
\<close>

record 'b env =
  json_Marshal :: "'b \<Rightarrow> error + bytes"
  http_NewRequest :: "string \<Rightarrow> string \<Rightarrow> bytes \<Rightarrow> error + http_Request"
  CanonicalMIMEHeaderKey :: "string \<Rightarrow> string"
  transport :: "nat \<Rightarrow> http_Request \<Rightarrow> error + http_Response"

text \<open>
  The state: the \<open>Client\<close> that the receiver \<open>c\<close> points to, the number of round trips
  made so far, and the trace.
\<close>

record 'b world =
  client :: Client
  round_trips :: nat
  trace :: "'b event list"

definition emit :: "'b event \<Rightarrow> 'b world \<Rightarrow> 'b world" where
  "emit e w = w\<lparr>trace := trace w @ [e]\<rparr>"

definition time_Sleep :: "Duration \<Rightarrow> 'b world \<Rightarrow> 'b world" where
  "time_Sleep d w = emit (Call_Sleep d) w"

definition Header_Set :: "'b env \<Rightarrow> string \<Rightarrow> string \<Rightarrow> Header \<Rightarrow> Header" where
  "Header_Set E key val h = h(CanonicalMIMEHeaderKey E key \<mapsto> [val])"

text \<open>\<open>c.HTTPClient.Do(request)\<close>: a nil \<open>HTTPClient\<close> panics before any round trip.\<close>

definition Client_Do ::
  "'b env \<Rightarrow> http_Request \<Rightarrow> 'b world \<Rightarrow> (error + http_Response) outcome \<times> 'b world" where
  "Client_Do E request w =
     (case HTTPClient (client w) of
        None \<Rightarrow> (Panic, w)
      | Some hc \<Rightarrow>
          (Return (transport E (round_trips w) request),
           emit (Call_Do request) (w\<lparr>round_trips := Suc (round_trips w)\<rparr>)))"

section \<open>The functions of apiClient.go\<close>

definition Second :: Duration where
  "Second = 1000000000"

definition NewClient :: "string \<Rightarrow> bool \<Rightarrow> go_int \<Rightarrow> Duration \<Rightarrow> Client" where
  "NewClient baseURL debug maxRetries retryDelay =
     \<lparr>BaseURL = baseURL,
      HTTPClient = Some \<lparr>Timeout = 10 * Second\<rparr>,
      Debug = debug,
      MaxRetries = maxRetries,
      RetryDelay = retryDelay\<rparr>"

definition logRequest :: "http_Request \<Rightarrow> bytes \<Rightarrow> 'b world \<Rightarrow> 'b world" where
  "logRequest request body w =
     emit (Call_Printf ''Request Body: %s\<newline>'' [Arg_string body])
       (emit (Call_Printf ''Request Headers: %v\<newline>'' [Arg_Header (req_Header request)])
         (emit (Call_Printf ''Request URL: %s\<newline>'' [Arg_string (req_URL request)])
           (emit (Call_Printf ''Request Method: %s\<newline>'' [Arg_string (req_Method request)]) w)))"

definition logResponse :: "http_Response \<Rightarrow> bytes \<Rightarrow> 'b world \<Rightarrow> 'b world" where
  "logResponse response body w =
     emit (Call_Printf ''Response Body: %s\<newline>'' [Arg_string body])
       (emit (Call_Printf ''Response Headers: %v\<newline>'' [Arg_Header (http_Header response)])
         (emit (Call_Printf ''Response Status: %s\<newline>'' [Arg_string (Status response)]) w))"

text \<open>
  The loop \<open>for key, value := range req.Headers { request.Header.Set(key, value) }\<close>.
\<close>

definition set_headers :: "'b env \<Rightarrow> (string \<times> string) list \<Rightarrow> http_Request \<Rightarrow> http_Request" where
  "set_headers E hs request =
     request\<lparr>req_Header := fold (\<lambda>(key, val). Header_Set E key val) hs (req_Header request)\<rparr>"

text \<open>
  \<open>send\<close>, one attempt. The result is the pair \<open>(*APIResponse, error)\<close> of the source, each
  component \<open>None\<close> for nil. The deferred \<open>response.Body.Close()\<close> runs on the two
  returns that follow a successful \<open>Do\<close>.
\<close>

type_synonym result = "APIResponse option \<times> error option"

definition send :: "'b env \<Rightarrow> 'b APIRequest \<Rightarrow> 'b world \<Rightarrow> result outcome \<times> 'b world" where
  "send E req w0 =
     (let w1 = emit Enter_send w0;
          url = BaseURL (client w1) @ Endpoint req;
          (marshalled, w2) =
            (case Body req of
               None \<Rightarrow> (Inr [], w1)
             | Some b \<Rightarrow> (json_Marshal E b, emit (Call_Marshal b) w1))
      in case marshalled of
           Inl err \<Rightarrow> (Return (None, Some err), w2)
         | Inr reqBody \<Rightarrow>
             (let w3 = emit (Call_NewRequest (Method req) url reqBody) w2
              in case http_NewRequest E (Method req) url reqBody of
                   Inl err \<Rightarrow> (Return (None, Some err), w3)
                 | Inr request0 \<Rightarrow>
                     (let request = set_headers E (Headers req) request0;
                          w4 = (if Debug (client w3) then logRequest request reqBody w3 else w3)
                      in case Client_Do E request w4 of
                           (Panic, w5) \<Rightarrow> (Panic, w5)
                         | (Return (Inl err), w5) \<Rightarrow> (Return (None, Some err), w5)
                         | (Return (Inr response), w5) \<Rightarrow>
                             (let w6 = emit Call_ReadAll w5
                              in case body_stream response of
                                   Inl err \<Rightarrow> (Return (None, Some err), emit Call_Close w6)
                                 | Inr respBody \<Rightarrow>
                                     (let w7 = (if Debug (client w6)
                                                then logResponse response respBody w6 else w6)
                                      in (Return
                                            (Some \<lparr>StatusCode = http_StatusCode response,
                                                   resp_Headers = http_Header response,
                                                   resp_Body = respBody\<rparr>, None),
                                          emit Call_Close w7))))))"

text \<open>
  The loop of \<open>SendRequest\<close>: \<open>attempt\<close> is the loop variable, \<open>res\<close> the current values
  of \<open>response\<close> and \<open>err\<close>. The result is \<open>None\<close> when the loop never ends.
\<close>

partial_function (option) SendRequest_loop ::
  "'b env \<Rightarrow> 'b APIRequest \<Rightarrow> go_int \<Rightarrow> result \<Rightarrow> 'b world \<Rightarrow> (result outcome \<times> 'b world) option"
where
  "SendRequest_loop E req attempt res w =
     (if attempt \<le>s MaxRetries (client w) then
        (case send E req w of
           (Panic, w') \<Rightarrow> Some (Panic, w')
         | (Return (response, err), w') \<Rightarrow>
             if err = None then Some (Return (response, None), w')
             else SendRequest_loop E req (attempt + 1) (response, err)
                    (time_Sleep (RetryDelay (client w')) w'))
      else Some (Return res, w))"

definition SendRequest ::
  "'b env \<Rightarrow> 'b APIRequest \<Rightarrow> 'b world \<Rightarrow> (result outcome \<times> 'b world) option" where
  "SendRequest E req w = SendRequest_loop E req 0 (None, None) w"

section \<open>Reading the trace\<close>

fun is_Enter_send :: "'b event \<Rightarrow> bool" where
  "is_Enter_send Enter_send = True"
| "is_Enter_send _ = False"

fun is_Sleep :: "'b event \<Rightarrow> bool" where
  "is_Sleep (Call_Sleep d) = True"
| "is_Sleep _ = False"

fun is_Printf :: "'b event \<Rightarrow> bool" where
  "is_Printf (Call_Printf f args) = True"
| "is_Printf _ = False"

fun is_Marshal :: "'b event \<Rightarrow> bool" where
  "is_Marshal (Call_Marshal b) = True"
| "is_Marshal _ = False"

text \<open>The number of calls of \<open>send\<close> and of \<open>time.Sleep\<close> in a trace.\<close>

definition attempts :: "'b event list \<Rightarrow> nat" where
  "attempts t = length (filter is_Enter_send t)"

definition sleeps :: "'b event list \<Rightarrow> nat" where
  "sleeps t = length (filter is_Sleep t)"

text \<open>The events recorded between the state \<open>w\<close> and the later state \<open>w'\<close>.\<close>

definition new_events :: "'b world \<Rightarrow> 'b world \<Rightarrow> 'b event list" where
  "new_events w w' = drop (length (trace w)) (trace w')"

text \<open>An attempt failed when \<open>send\<close> returned a non-nil error.\<close>

fun failed :: "result outcome \<Rightarrow> bool" where
  "failed (Return (response, Some err)) = True"
| "failed _ = False"

text \<open>
  The state in which the loop of \<open>SendRequest\<close> makes its call number \<open>i\<close> of \<open>send\<close>
  (counted from 0) when the calls before it have failed: each of them is followed by the
  sleep of the loop body.
\<close>

fun before_attempt :: "'b env \<Rightarrow> 'b APIRequest \<Rightarrow> 'b world \<Rightarrow> nat \<Rightarrow> 'b world" where
  "before_attempt E req w 0 = w"
| "before_attempt E req w (Suc i) =
     (let w' = snd (send E req (before_attempt E req w i))
      in time_Sleep (RetryDelay (client w')) w')"

text \<open>\<open>math.MaxInt64\<close>, the largest value of a 64-bit \<open>int\<close>.\<close>

definition MaxInt64 :: go_int where
  "MaxInt64 = 9223372036854775807"

text \<open>
  Two values of the model stand for the same Go request when they differ at most in the
  order in which \<open>range\<close> visits \<open>Headers\<close>: the keys of a Go map are distinct, and the
  two lists have the same pairs.
\<close>

definition same_request :: "'b APIRequest \<Rightarrow> 'b APIRequest \<Rightarrow> bool" where
  "same_request req1 req2 \<longleftrightarrow>
     Method req1 = Method req2 \<and> Endpoint req1 = Endpoint req2 \<and> Body req1 = Body req2 \<and>
     distinct (map fst (Headers req1)) \<and> distinct (map fst (Headers req2)) \<and>
     set (Headers req1) = set (Headers req2)"

section \<open>Example environments\<close>

text \<open>
  The request of \<open>example.go\<close>, a client built as there with a chosen \<open>maxRetries\<close> and
  debugging off, and five environments: a server that refuses every connection, one that
  answers 404, one that refuses the first two connections and then answers 404, one that
  times out once and resets every later connection, and a body that \<open>json.Marshal\<close>
  rejects.
\<close>

definition plain_NewRequest :: "string \<Rightarrow> string \<Rightarrow> bytes \<Rightarrow> error + http_Request" where
  "plain_NewRequest m u b = Inr \<lparr>req_Method = m, req_URL = u, req_Header = Map.empty, req_Body = b\<rparr>"

definition refused :: "string env" where
  "refused =
     \<lparr>json_Marshal = Inr,
      http_NewRequest = plain_NewRequest,
      CanonicalMIMEHeaderKey = (\<lambda>k. k),
      transport = (\<lambda>n rq. Inl (Error ''connection refused''))\<rparr>"

definition not_found :: http_Response where
  "not_found =
     \<lparr>Status = ''404 Not Found'', http_StatusCode = 404, http_Header = Map.empty,
      body_stream = Inr ''not found''\<rparr>"

definition answers_404 :: "string env" where
  "answers_404 = refused\<lparr>transport := (\<lambda>n rq. Inr not_found)\<rparr>"

definition flaky :: "string env" where
  "flaky = refused\<lparr>transport :=
     (\<lambda>n rq. if n < 2 then Inl (Error ''connection refused'') else Inr not_found)\<rparr>"

definition changing_errors :: "string env" where
  "changing_errors = refused\<lparr>transport :=
     (\<lambda>n rq. if n = 0 then Inl (Error ''timeout'') else Inl (Error ''connection reset''))\<rparr>"

definition unmarshalable :: "string env" where
  "unmarshalable = refused\<lparr>json_Marshal := (\<lambda>b. Inl (Error ''json: unsupported type''))\<rparr>"

definition get_data :: "string APIRequest" where
  "get_data =
     \<lparr>Method = ''GET'', Endpoint = ''/data'',
      Headers = [(''Content-Type'', ''application/json'')], Body = None\<rparr>"

definition post_data :: "string APIRequest" where
  "post_data = get_data\<lparr>Method := ''POST'', Body := Some ''payload''\<rparr>"

definition example_client :: "go_int \<Rightarrow> Client" where
  "example_client maxRetries = NewClient ''https://api.example.com'' False maxRetries (2 * Second)"

definition start :: "Client \<Rightarrow> 'b world" where
  "start c = \<lparr>client = c, round_trips = 0, trace = []\<rparr>"

text \<open>
  A server that looks at the content type: it answers 404 to JSON and 415 to anything else.
  \<open>canonical\<close> is what \<open>textproto.CanonicalMIMEHeaderKey\<close> does to the header names used
  here: \<open>content-type\<close> becomes \<open>Content-Type\<close>, and \<open>Accept\<close> and \<open>Content-Type\<close> stay.
  The two \<open>colliding\<close> requests are one Go request, whose \<open>Headers\<close> map has the two keys
  \<open>content-type\<close> and \<open>Content-Type\<close>, in the two orders in which \<open>range\<close> can visit it;
  the two \<open>accepting\<close> requests likewise, with the keys \<open>Accept\<close> and \<open>Content-Type\<close>.
\<close>

definition canonical :: "string \<Rightarrow> string" where
  "canonical k = (if k = ''content-type'' then ''Content-Type'' else k)"

definition unsupported :: http_Response where
  "unsupported =
     \<lparr>Status = ''415 Unsupported Media Type'', http_StatusCode = 415, http_Header = Map.empty,
      body_stream = Inr ''unsupported''\<rparr>"

definition picky :: "string env" where
  "picky = refused\<lparr>CanonicalMIMEHeaderKey := canonical, transport :=
     (\<lambda>n rq. if req_Header rq ''Content-Type'' = Some [''application/json'']
              then Inr not_found else Inr unsupported)\<rparr>"

definition colliding_a :: "string APIRequest" where
  "colliding_a = get_data\<lparr>Headers :=
     [(''content-type'', ''text/plain''), (''Content-Type'', ''application/json'')]\<rparr>"

definition colliding_b :: "string APIRequest" where
  "colliding_b = get_data\<lparr>Headers :=
     [(''Content-Type'', ''application/json''), (''content-type'', ''text/plain'')]\<rparr>"

definition accepting_a :: "string APIRequest" where
  "accepting_a = get_data\<lparr>Headers :=
     [(''Accept'', ''text/html''), (''Content-Type'', ''application/json'')]\<rparr>"

definition accepting_b :: "string APIRequest" where
  "accepting_b = get_data\<lparr>Headers :=
     [(''Content-Type'', ''application/json''), (''Accept'', ''text/html'')]\<rparr>"

section \<open>Facts about the state and about \<open>send\<close>\<close>

lemma client_emit [simp]: "client (emit e w) = client w" by (simp add: emit_def)
lemma trace_emit [simp]: "trace (emit e w) = trace w @ [e]" by (simp add: emit_def)
lemma round_trips_emit [simp]: "round_trips (emit e w) = round_trips w" by (simp add: emit_def)
lemma client_logRequest [simp]: "client (logRequest r b w) = client w" by (simp add: logRequest_def)
lemma client_logResponse [simp]: "client (logResponse r b w) = client w" by (simp add: logResponse_def)
lemma round_trips_logRequest [simp]: "round_trips (logRequest r b w) = round_trips w" by (simp add: logRequest_def)
lemma round_trips_logResponse [simp]: "round_trips (logResponse r b w) = round_trips w" by (simp add: logResponse_def)
lemma trace_logRequest [simp]: "trace (logRequest r b w) = trace w @
  [Call_Printf ''Request Method: %s\<newline>'' [Arg_string (req_Method r)],
   Call_Printf ''Request URL: %s\<newline>'' [Arg_string (req_URL r)],
   Call_Printf ''Request Headers: %v\<newline>'' [Arg_Header (req_Header r)],
   Call_Printf ''Request Body: %s\<newline>'' [Arg_string b]]" by (simp add: logRequest_def)
lemma trace_logResponse [simp]: "trace (logResponse r b w) = trace w @
  [Call_Printf ''Response Status: %s\<newline>'' [Arg_string (Status r)],
   Call_Printf ''Response Headers: %v\<newline>'' [Arg_Header (http_Header r)],
   Call_Printf ''Response Body: %s\<newline>'' [Arg_string b]]" by (simp add: logResponse_def)

lemmas send_simps = send_def Let_def Client_Do_def
lemmas send_split = option.split sum.split

lemma send_client: "client (snd (send E req w)) = client w"
  by (simp add: send_simps split: send_split)

section \<open>Facts about the loop of \<open>SendRequest\<close>\<close>

lemma client_time_Sleep [simp]: "client (time_Sleep d w) = client w"
  by (simp add: time_Sleep_def)

lemma client_before_attempt [simp]: "client (before_attempt E req w i) = client w"
  by (induction i) (simp_all add: Let_def send_client)

lemma before_attempt_shift:
  "before_attempt E req (before_attempt E req w (Suc 0)) i = before_attempt E req w (Suc i)"
  by (induction i) (simp_all add: Let_def)

lemma loop_exit:
  "\<not> attempt \<le>s MaxRetries (client w) \<Longrightarrow> SendRequest_loop E req attempt res w = Some (Return res, w)"
  by (subst SendRequest_loop.simps) simp

lemma loop_nonfail:
  assumes "attempt \<le>s MaxRetries (client w)" and "\<not> failed (fst (send E req w))"
  shows "SendRequest_loop E req attempt res w = Some (send E req w)"
proof (cases "send E req w")
  case (Pair out w')
  show ?thesis
  proof (cases out)
    case Panic
    with Pair assms(1) show ?thesis by (subst SendRequest_loop.simps) simp
  next
    case (Return r)
    obtain response err where r: "r = (response, err)" by (cases r)
    with Return Pair assms(2) have "err = None" by (cases err) simp_all
    with r Return Pair assms(1) show ?thesis by (subst SendRequest_loop.simps) simp
  qed
qed

lemma loop_retry:
  assumes "attempt \<le>s MaxRetries (client w)" and "failed (fst (send E req w))"
  shows "SendRequest_loop E req attempt res w =
         SendRequest_loop E req (attempt + 1)
           (case fst (send E req w) of Return r \<Rightarrow> r | Panic \<Rightarrow> res)
           (before_attempt E req w (Suc 0))"
proof (cases "send E req w")
  case (Pair out w')
  from assms(2) Pair obtain response e where "out = Return (response, Some e)"
    by (cases out rule: failed.cases) simp_all
  with Pair assms(1) show ?thesis
    by (subst SendRequest_loop.simps) (simp add: Let_def)
qed

lemma sint_succ:
  fixes a M :: go_int
  assumes "sint a < sint M"
  shows "sint (a + 1) = sint a + 1"
proof -
  have "sint M < 2 ^ 63" using sint_lt [of M] by simp
  moreover have "- (2 ^ 63) \<le> sint a" using sint_ge [of a] by simp
  ultimately have "signed_take_bit 63 (sint a + 1) = sint a + 1"
    using assms by (intro signed_take_bit_int_eq_self) auto
  then show ?thesis by (simp add: sint_word_ariths)
qed

lemma sint_MaxInt64: "sint MaxInt64 = 2 ^ 63 - 1"
  by (simp add: MaxInt64_def)

lemma not_succ_sle:
  fixes M :: go_int
  assumes "M \<noteq> MaxInt64"
  shows "\<not> M + 1 \<le>s M"
proof -
  have "sint M \<noteq> sint MaxInt64" using assms by (auto dest: signed_word_eqI)
  moreover have "sint M < 2 ^ 63" using sint_lt [of M] by simp
  ultimately have "sint M < sint MaxInt64" by (simp add: sint_MaxInt64)
  then have "sint (M + 1) = sint M + 1" by (rule sint_succ)
  then show ?thesis by (simp add: word_sle_eq)
qed

lemma sle_MaxInt64: "(a :: go_int) \<le>s MaxInt64"
  using sint_lt [of a] by (simp add: word_sle_eq sint_MaxInt64)

lemma before_attempt_1:
  "before_attempt E req w (Suc 0) = time_Sleep (RetryDelay (client w)) (snd (send E req w))"
  by (simp add: Let_def send_client)

declare before_attempt.simps(2) [simp del]

lemma loop_first_nonfail:
  assumes "sint attempt + int j \<le> sint (MaxRetries (client w))"
    and "\<forall>i<j. failed (fst (send E req (before_attempt E req w i)))"
    and "\<not> failed (fst (send E req (before_attempt E req w j)))"
  shows "SendRequest_loop E req attempt res w = Some (send E req (before_attempt E req w j))"
  using assms
proof (induction j arbitrary: attempt res w)
  case 0
  then show ?case by (simp add: loop_nonfail word_sle_eq)
next
  case (Suc j)
  let ?w1 = "before_attempt E req w (Suc 0)"
  from Suc.prems(1) have lt: "sint attempt < sint (MaxRetries (client w))" by simp
  then have le: "attempt \<le>s MaxRetries (client w)" by (simp add: word_sle_eq)
  from Suc.prems(2) have f0: "failed (fst (send E req w))" by force
  have s1: "sint (attempt + 1) = sint attempt + 1" using lt by (rule sint_succ)
  have a: "sint (attempt + 1) + int j \<le> sint (MaxRetries (client ?w1))"
    using Suc.prems(1) s1 by simp
  have b: "\<forall>i<j. failed (fst (send E req (before_attempt E req ?w1 i)))"
    using Suc.prems(2) by (simp only: before_attempt_shift) auto
  have c: "\<not> failed (fst (send E req (before_attempt E req ?w1 j)))"
    using Suc.prems(3) by (simp add: before_attempt_shift)
  have "SendRequest_loop E req (attempt + 1)
          (case fst (send E req w) of Return r \<Rightarrow> r | Panic \<Rightarrow> res) ?w1 =
        Some (send E req (before_attempt E req ?w1 j))"
    using a b c by (rule Suc.IH)
  then show ?case
    by (simp only: loop_retry [OF le f0] before_attempt_shift)
qed

lemma loop_all_fail:
  assumes "sint attempt + int n = sint (MaxRetries (client w))"
    and "MaxRetries (client w) \<noteq> MaxInt64"
    and "\<forall>i\<le>n. failed (fst (send E req (before_attempt E req w i)))"
  shows "SendRequest_loop E req attempt res w =
         Some (fst (send E req (before_attempt E req w n)), before_attempt E req w (Suc n))"
  using assms
proof (induction n arbitrary: attempt res w)
  case 0
  let ?w1 = "before_attempt E req w (Suc 0)"
  from "0.prems"(1) have eq: "attempt = MaxRetries (client w)" by (auto dest: signed_word_eqI)
  then have le: "attempt \<le>s MaxRetries (client w)" by simp
  from "0.prems"(3) have f0: "failed (fst (send E req w))" by simp
  then obtain r where r: "fst (send E req w) = Return r"
    by (cases "fst (send E req w)") simp_all
  have "\<not> attempt + 1 \<le>s MaxRetries (client ?w1)"
    using not_succ_sle [OF "0.prems"(2)] eq by simp
  then have "SendRequest_loop E req (attempt + 1) r ?w1 = Some (Return r, ?w1)"
    by (rule loop_exit)
  then show ?case
    by (simp add: loop_retry [OF le f0] r)
next
  case (Suc n)
  let ?w1 = "before_attempt E req w (Suc 0)"
  from Suc.prems(1) have lt: "sint attempt < sint (MaxRetries (client w))" by simp
  then have le: "attempt \<le>s MaxRetries (client w)" by (simp add: word_sle_eq)
  from Suc.prems(3) have f0: "failed (fst (send E req w))" by force
  have s1: "sint (attempt + 1) = sint attempt + 1" using lt by (rule sint_succ)
  have a: "sint (attempt + 1) + int n = sint (MaxRetries (client ?w1))"
    using Suc.prems(1) s1 by simp
  have b: "MaxRetries (client ?w1) \<noteq> MaxInt64" using Suc.prems(2) by simp
  have c: "\<forall>i\<le>n. failed (fst (send E req (before_attempt E req ?w1 i)))"
    using Suc.prems(3) by (simp only: before_attempt_shift) auto
  have "SendRequest_loop E req (attempt + 1)
          (case fst (send E req w) of Return r \<Rightarrow> r | Panic \<Rightarrow> res) ?w1 =
        Some (fst (send E req (before_attempt E req ?w1 n)), before_attempt E req ?w1 (Suc n))"
    using a b c by (rule Suc.IH)
  then show ?case
    by (simp only: loop_retry [OF le f0] before_attempt_shift)
qed

lemma failed_cases:
  obtains (fail) r e where "out = Return (r, Some e)" "failed out"
  | (ok) r where "out = Return (r, None)" "\<not> failed out"
  | (panic) "out = Panic" "\<not> failed out"
  by (cases out rule: failed.cases) simp_all

lemma loop_MaxInt64:
  assumes "SendRequest_loop E req attempt res w = Some y"
  shows "MaxRetries (client w) = MaxInt64 \<longrightarrow>
         (\<exists>j. \<not> failed (fst (send E req (before_attempt E req w j))) \<and>
              y = send E req (before_attempt E req w j))"
  apply (rule SendRequest_loop.raw_induct [where P = "\<lambda>E req attempt res w y.
           MaxRetries (client w) = MaxInt64 \<longrightarrow>
           (\<exists>j. \<not> failed (fst (send E req (before_attempt E req w j))) \<and>
              y = send E req (before_attempt E req w j))", OF _ assms])
  subgoal premises prems for f E req attempt res w y
  proof
    assume M: "MaxRetries (client w) = MaxInt64"
    then have le: "attempt \<le>s MaxRetries (client w)" by (simp add: sle_MaxInt64)
    obtain out w' where s: "send E req w = (out, w')" by (cases "send E req w")
    show "\<exists>j. \<not> failed (fst (send E req (before_attempt E req w j))) \<and>
              y = send E req (before_attempt E req w j)"
    proof (cases out rule: failed_cases)
      case (fail r e)
      let ?w1 = "before_attempt E req w (Suc 0)"
      from prems(2) le s fail
      have "f E req (attempt + 1) (r, Some e) ?w1 = Some y"
        by (simp add: before_attempt_1 send_client [of E req w, unfolded s, simplified])
      from prems(1) [OF this] M
      obtain j where "\<not> failed (fst (send E req (before_attempt E req ?w1 j)))"
        and "y = send E req (before_attempt E req ?w1 j)" by auto
      then show ?thesis by (intro exI [of _ "Suc j"]) (simp only: before_attempt_shift, simp)
    next
      case (ok r)
      with prems(2) le s have "y = send E req w" by simp
      with ok s show ?thesis by (intro exI [of _ 0]) simp
    next
      case panic
      with prems(2) le s have "y = send E req w" by simp
      with panic s show ?thesis by (intro exI [of _ 0]) simp
    qed
  qed
  done

lemma loop_world:
  assumes "SendRequest_loop E req attempt res w = Some y"
  shows "\<exists>j. snd y = before_attempt E req w j \<or> snd y = snd (send E req (before_attempt E req w j))"
  apply (rule SendRequest_loop.raw_induct [where P = "\<lambda>E req attempt res w y.
           \<exists>j. snd y = before_attempt E req w j \<or>
               snd y = snd (send E req (before_attempt E req w j))", OF _ assms])
  subgoal premises prems for f E req attempt res w y
  proof (cases "attempt \<le>s MaxRetries (client w)")
    case False
    with prems(2) have "snd y = before_attempt E req w 0" by auto
    then show ?thesis by blast
  next
    case le: True
    obtain out w' where s: "send E req w = (out, w')" by (cases "send E req w")
    show ?thesis
    proof (cases out rule: failed_cases)
      case (fail r e)
      let ?w1 = "before_attempt E req w (Suc 0)"
      from prems(2) le s fail
      have "f E req (attempt + 1) (r, Some e) ?w1 = Some y"
        by (simp add: before_attempt_1 send_client [of E req w, unfolded s, simplified])
      from prems(1) [OF this]
      obtain j where "snd y = before_attempt E req ?w1 j \<or>
               snd y = snd (send E req (before_attempt E req ?w1 j))" by auto
      then have "snd y = before_attempt E req w (Suc j) \<or>
               snd y = snd (send E req (before_attempt E req w (Suc j)))"
        by (simp only: before_attempt_shift)
      then show ?thesis by blast
    next
      case (ok r)
      with prems(2) le s have "snd y = snd (send E req (before_attempt E req w 0))" by simp
      then show ?thesis by blast
    next
      case panic
      with prems(2) le s have "snd y = snd (send E req (before_attempt E req w 0))" by simp
      then show ?thesis by blast
    qed
  qed
  done

section \<open>Facts about the trace\<close>

lemma send_events_shape:
  "\<exists>es. trace (snd (send E req w)) = trace w @ Enter_send # es \<and>
        (\<forall>e\<in>set es. \<not> is_Enter_send e \<and> \<not> is_Sleep e \<and>
           (\<not> Debug (client w) \<longrightarrow> \<not> is_Printf e) \<and>
           (Body req = None \<longrightarrow> \<not> is_Marshal e) \<and>
           (\<forall>m u b. e = Call_NewRequest m u b \<longrightarrow> u = BaseURL (client w) @ Endpoint req))"
  by (simp add: send_simps split: send_split)

lemma new_events_append: "trace w' = trace w @ es \<Longrightarrow> new_events w w' = es"
  by (simp add: new_events_def)

lemma filter_none: "\<forall>e\<in>set es. \<not> P e \<Longrightarrow> filter P es = []"
  by (induction es) simp_all

lemma send_events:
  "\<exists>es. trace (snd (send E req w)) = trace w @ es \<and> attempts es = 1 \<and> sleeps es = 0 \<and>
        (\<not> Debug (client w) \<longrightarrow> filter is_Printf es = [])"
proof -
  from send_events_shape [of E req w] obtain es
    where t: "trace (snd (send E req w)) = trace w @ Enter_send # es"
      and p: "\<forall>e\<in>set es. \<not> is_Enter_send e \<and> \<not> is_Sleep e \<and>
                (\<not> Debug (client w) \<longrightarrow> \<not> is_Printf e)"
    by blast
  from p have "filter is_Enter_send es = []" "filter is_Sleep es = []"
    by (simp_all add: filter_none)
  moreover from p have "\<not> Debug (client w) \<longrightarrow> filter is_Printf es = []"
    by (simp add: filter_none)
  ultimately show ?thesis using t
    by (intro exI [of _ "Enter_send # es"]) (simp add: attempts_def sleeps_def)
qed

lemma before_attempt_events:
  "\<exists>es. trace (before_attempt E req w j) = trace w @ es \<and> attempts es = j \<and> sleeps es = j \<and>
        (\<not> Debug (client w) \<longrightarrow> filter is_Printf es = [])"
proof (induction j)
  case 0
  show ?case by (simp add: attempts_def sleeps_def)
next
  case (Suc j)
  let ?wj = "before_attempt E req w j"
  from Suc obtain es where es: "trace ?wj = trace w @ es" "attempts es = j" "sleeps es = j"
    "\<not> Debug (client w) \<longrightarrow> filter is_Printf es = []" by blast
  from send_events [of E req ?wj] obtain es'
    where es': "trace (snd (send E req ?wj)) = trace ?wj @ es'" "attempts es' = 1" "sleeps es' = 0"
      "\<not> Debug (client w) \<longrightarrow> filter is_Printf es' = []" by auto
  let ?d = "RetryDelay (client (snd (send E req ?wj)))"
  have "trace (before_attempt E req w (Suc j)) = trace w @ (es @ es' @ [Call_Sleep ?d])"
    by (simp add: before_attempt.simps(2) Let_def time_Sleep_def es(1) es'(1))
  moreover have "attempts (es @ es' @ [Call_Sleep ?d]) = Suc j"
    using es(2) es'(2) by (simp add: attempts_def)
  moreover have "sleeps (es @ es' @ [Call_Sleep ?d]) = Suc j"
    using es(3) es'(3) by (simp add: sleeps_def)
  moreover have "\<not> Debug (client w) \<longrightarrow> filter is_Printf (es @ es' @ [Call_Sleep ?d]) = []"
    using es(4) es'(4) by simp
  ultimately show ?case by blast
qed

lemma after_attempt_events:
  "\<exists>es. trace (snd (send E req (before_attempt E req w j))) = trace w @ es \<and>
        attempts es = Suc j \<and> sleeps es = j \<and>
        (\<not> Debug (client w) \<longrightarrow> filter is_Printf es = [])"
proof -
  let ?wj = "before_attempt E req w j"
  from before_attempt_events [of E req w j] obtain es
    where es: "trace ?wj = trace w @ es" "attempts es = j" "sleeps es = j"
      "\<not> Debug (client w) \<longrightarrow> filter is_Printf es = []" by blast
  from send_events [of E req ?wj] obtain es'
    where es': "trace (snd (send E req ?wj)) = trace ?wj @ es'" "attempts es' = 1" "sleeps es' = 0"
      "\<not> Debug (client w) \<longrightarrow> filter is_Printf es' = []" by auto
  have "trace (snd (send E req ?wj)) = trace w @ (es @ es')"
    by (simp add: es(1) es'(1))
  moreover have "attempts (es @ es') = Suc j" using es(2) es'(2) by (simp add: attempts_def)
  moreover have "sleeps (es @ es') = j" using es(3) es'(3) by (simp add: sleeps_def)
  moreover have "\<not> Debug (client w) \<longrightarrow> filter is_Printf (es @ es') = []"
    using es(4) es'(4) by simp
  ultimately show ?thesis by blast
qed

lemma SendRequest_loop_quiet:
  assumes "SendRequest_loop E req attempt res w = Some y" and "\<not> Debug (client w)"
  shows "filter is_Printf (new_events w (snd y)) = []"
proof -
  from loop_world [OF assms(1)] obtain j
    where "snd y = before_attempt E req w j \<or> snd y = snd (send E req (before_attempt E req w j))"
    by blast
  then show ?thesis
  proof
    assume y: "snd y = before_attempt E req w j"
    from before_attempt_events [of E req w j] assms(2) obtain es
      where "trace (before_attempt E req w j) = trace w @ es" "filter is_Printf es = []" by blast
    with y show ?thesis by (simp add: new_events_append)
  next
    assume y: "snd y = snd (send E req (before_attempt E req w j))"
    from after_attempt_events [of E req w j] assms(2) obtain es
      where "trace (snd (send E req (before_attempt E req w j))) = trace w @ es"
        "filter is_Printf es = []" by blast
    with y show ?thesis by (simp add: new_events_append)
  qed
qed

lemma SendRequest_loop_client:
  assumes "SendRequest_loop E req attempt res w = Some y"
  shows "client (snd y) = client w"
proof -
  from loop_world [OF assms] obtain j
    where "snd y = before_attempt E req w j \<or> snd y = snd (send E req (before_attempt E req w j))"
    by blast
  then show ?thesis by (auto simp: send_client)
qed

section \<open>Facts about the example environments\<close>

lemma refused_send:
  assumes "HTTPClient (client w) = Some hc"
  shows "fst (send refused get_data w) = Return (None, Some (Error ''connection refused''))"
  using assms by (simp add: send_simps refused_def get_data_def plain_NewRequest_def)

lemma example_client_simps:
  "HTTPClient (client (start (example_client n) :: string world)) = Some \<lparr>Timeout = 10 * Second\<rparr>"
  "MaxRetries (client (start (example_client n) :: string world)) = n"
  "Debug (client (start (example_client n) :: string world)) = False"
  by (simp_all add: start_def example_client_def NewClient_def)

lemma refused_fails: "failed (fst (send refused get_data (before_attempt refused get_data (start (example_client n)) i)))"
  by (simp add: refused_send [where hc = "\<lparr>Timeout = 10 * Second\<rparr>"] example_client_simps)

lemma get_data_round_trips:
  assumes "http_NewRequest E = plain_NewRequest" and "HTTPClient (client w) = Some hc"
  shows "round_trips (snd (send E get_data w)) = Suc (round_trips w)"
  using assms
  by (simp add: send_simps get_data_def plain_NewRequest_def split: send_split)

lemma get_data_transport_error:
  assumes "http_NewRequest E = plain_NewRequest" and "HTTPClient (client w) = Some hc"
    and "\<And>rq. transport E (round_trips w) rq = Inl err"
  shows "fst (send E get_data w) = Return (None, Some err)"
  using assms by (simp add: send_simps get_data_def plain_NewRequest_def)

lemma get_data_not_found:
  assumes "http_NewRequest E = plain_NewRequest" and "HTTPClient (client w) = Some hc"
    and "\<And>rq. transport E (round_trips w) rq = Inr not_found"
  shows "fst (send E get_data w) =
    Return (Some \<lparr>StatusCode = 404, resp_Headers = Map.empty, resp_Body = ''not found''\<rparr>, None)"
  using assms by (simp add: send_simps get_data_def plain_NewRequest_def not_found_def)

lemma before_attempt_round_trips:
  assumes "http_NewRequest E = plain_NewRequest" and "HTTPClient (client w) = Some hc"
  shows "round_trips (before_attempt E get_data w i) = round_trips w + i"
proof (induction i)
  case 0
  show ?case by simp
next
  case (Suc i)
  have "HTTPClient (client (before_attempt E get_data w i)) = Some hc"
    using assms(2) by simp
  from get_data_round_trips [OF assms(1) this] Suc show ?case
    by (simp add: before_attempt.simps(2) Let_def time_Sleep_def)
qed

lemma example_env_simps:
  "http_NewRequest refused = plain_NewRequest"
  "http_NewRequest answers_404 = plain_NewRequest"
  "http_NewRequest flaky = plain_NewRequest"
  "http_NewRequest changing_errors = plain_NewRequest"
  by (simp_all add: refused_def answers_404_def flaky_def changing_errors_def)

lemma example_transport:
  "transport refused n rq = Inl (Error ''connection refused'')"
  "transport answers_404 n rq = Inr not_found"
  "transport flaky n rq = (if n < 2 then Inl (Error ''connection refused'') else Inr not_found)"
  "transport changing_errors n rq =
     (if n = 0 then Inl (Error ''timeout'') else Inl (Error ''connection reset''))"
  by (simp_all add: refused_def answers_404_def flaky_def changing_errors_def)

lemma start_simps:
  "round_trips (start c) = 0"
  "trace (start c) = []"
  "client (start c) = c"
  by (simp_all add: start_def)

lemma example_round_trips:
  assumes "http_NewRequest E = plain_NewRequest"
  shows "round_trips (before_attempt E get_data (start (example_client n)) i) = i"
  using before_attempt_round_trips [OF assms, of "start (example_client n)" "\<lparr>Timeout = 10 * Second\<rparr>" i]
  by (simp add: example_client_simps) (simp add: start_def)

lemma refused_returns:
  "\<exists>y. SendRequest refused get_data (start (example_client 0)) = Some y"
proof -
  let ?w = "start (example_client 0) :: string world"
  have a: "sint (0 :: go_int) + int 0 = sint (MaxRetries (client ?w))"
    by (simp add: example_client_simps)
  have b: "MaxRetries (client ?w) \<noteq> MaxInt64"
    by (simp add: example_client_simps MaxInt64_def)
  have c: "\<forall>i\<le>0. failed (fst (send refused get_data (before_attempt refused get_data ?w i)))"
    using refused_fails [of 0 0] by simp
  from loop_all_fail [OF a b c, of "(None, None)"] show ?thesis
    by (simp add: SendRequest_def)
qed

section \<open>Facts about the order of the headers\<close>

lemma fold_Header_Set:
  "fold (\<lambda>(key, val). Header_Set E key val) hs h =
   h ++ map_of (rev (map (\<lambda>(key, val). (CanonicalMIMEHeaderKey E key, [val])) hs))"
  by (induction hs arbitrary: h) (auto simp: Header_Set_def)

lemma set_headers_order:
  assumes "distinct (map fst hs1)" and "distinct (map fst hs2)" and "set hs1 = set hs2"
    and "inj_on (CanonicalMIMEHeaderKey E) (fst ` set hs1)"
  shows "set_headers E hs1 request = set_headers E hs2 request"
proof -
  let ?c = "CanonicalMIMEHeaderKey E"
  let ?g = "\<lambda>hs. rev (map (\<lambda>(key, val). (?c key, [val])) hs)"
  have fst_g: "map fst (?g hs) = rev (map ?c (map fst hs))" for hs :: "(string \<times> string) list"
    by (simp add: rev_map case_prod_beta comp_def)
  have k1: "distinct (map ?c (map fst hs1))"
    using assms(1,4) by (subst distinct_map) simp
  have k2: "distinct (map ?c (map fst hs2))"
    using assms(2,3,4) by (subst distinct_map) simp
  have d1: "distinct (map fst (?g hs1))"
    using k1 by (simp only: fst_g distinct_rev)
  have d2: "distinct (map fst (?g hs2))"
    using k2 by (simp only: fst_g distinct_rev)
  have "set (?g hs1) = set (?g hs2)" using assms(3) by simp
  with d1 d2 have "map_of (?g hs1) = map_of (?g hs2)"
    by (simp add: map_of_inject_set)
  then show ?thesis by (simp add: set_headers_def fold_Header_Set)
qed

lemma send_result_same:
  assumes "client w1 = client w2"
    and "Method req1 = Method req2" and "Endpoint req1 = Endpoint req2" and "Body req1 = Body req2"
    and "\<And>request. set_headers E (Headers req1) request = set_headers E (Headers req2) request"
    and "transport E (round_trips w1) = transport E (round_trips w2)"
  shows "fst (send E req1 w1) = fst (send E req2 w2)"
  using assms by (simp add: send_simps split: send_split)

lemma send_same_request:
  assumes "client w1 = client w2" and "same_request req1 req2"
    and "inj_on (CanonicalMIMEHeaderKey E) (fst ` set (Headers req1))"
    and "transport E (round_trips w1) = transport E (round_trips w2)"
  shows "fst (send E req1 w1) = fst (send E req2 w2)"
proof -
  from assms(2) have m: "Method req1 = Method req2" "Endpoint req1 = Endpoint req2"
    "Body req1 = Body req2" by (simp_all add: same_request_def)
  from assms(2) have "distinct (map fst (Headers req1))" "distinct (map fst (Headers req2))"
    "set (Headers req1) = set (Headers req2)" by (simp_all add: same_request_def)
  from set_headers_order [OF this assms(3)]
  have "set_headers E (Headers req1) request = set_headers E (Headers req2) request" for request .
  from send_result_same [OF assms(1) m this assms(4)] show ?thesis .
qed

section \<open>The claims\<close>

text \<open>
  C1, as written: for every \<open>maxRetries = N \<ge> 0\<close>, if every call of \<open>send\<close> fails,
  \<open>SendRequest\<close> makes exactly \<open>N + 1\<close> calls of \<open>send\<close> and then returns the last response
  and the last error. This fails for the largest \<open>int\<close>: with
  \<open>MaxRetries = math.MaxInt64\<close> the condition \<open>attempt <= c.MaxRetries\<close> holds for every
  value of \<open>attempt\<close>, \<open>attempt++\<close> wraps around, and with a server that refuses every
  connection \<open>SendRequest\<close> never returns.
\<close>

theorem SendRequest_MaxInt64_never_returns:
  "0 \<le>s MaxRetries (example_client MaxInt64) \<and>
   failed (fst (send refused get_data (start (example_client MaxInt64)))) \<and>
   SendRequest refused get_data (start (example_client MaxInt64)) = None"
proof (intro conjI)
  show "0 \<le>s MaxRetries (example_client MaxInt64)"
    by (simp add: example_client_def NewClient_def sle_MaxInt64)
  show "failed (fst (send refused get_data (start (example_client MaxInt64))))"
    using refused_fails [of MaxInt64 0] by simp
  show "SendRequest refused get_data (start (example_client MaxInt64)) = None"
  proof (cases "SendRequest refused get_data (start (example_client MaxInt64))")
    case None
    then show ?thesis .
  next
    case (Some y)
    then have "SendRequest_loop refused get_data 0 (None, None) (start (example_client MaxInt64)) = Some y"
      by (simp add: SendRequest_def)
    from loop_MaxInt64 [OF this] obtain j
      where "\<not> failed (fst (send refused get_data
               (before_attempt refused get_data (start (example_client MaxInt64)) j)))"
      by (auto simp: example_client_simps)
    with refused_fails [of MaxInt64 j] show ?thesis by simp
  qed
qed

text \<open>
  C1, amended: for every \<open>maxRetries = N\<close> with \<open>0 \<le> N\<close> and \<open>N\<close> not the largest \<open>int\<close>, if
  each of the calls number \<open>0\<close> to \<open>N\<close> of \<open>send\<close> fails, \<open>SendRequest\<close> returns the response
  and the error of call number \<open>N\<close>, and has then made exactly \<open>N + 1\<close> calls of \<open>send\<close>.
\<close>

theorem SendRequest_all_attempts_fail:
  assumes "sint (MaxRetries (client w)) = int N"
    and "MaxRetries (client w) \<noteq> MaxInt64"
    and "\<forall>i\<le>N. failed (fst (send E req (before_attempt E req w i)))"
  shows "\<exists>w'. SendRequest E req w = Some (fst (send E req (before_attempt E req w N)), w') \<and>
              attempts (new_events w w') = N + 1"
proof -
  have "sint (0 :: go_int) + int N = sint (MaxRetries (client w))"
    using assms(1) by simp
  from loop_all_fail [OF this assms(2) assms(3)]
  have r: "SendRequest E req w =
        Some (fst (send E req (before_attempt E req w N)), before_attempt E req w (Suc N))"
    by (simp add: SendRequest_def)
  from before_attempt_events [of E req w "Suc N"] obtain es
    where "trace (before_attempt E req w (Suc N)) = trace w @ es" "attempts es = Suc N"
    by blast
  then have "attempts (new_events w (before_attempt E req w (Suc N))) = N + 1"
    by (simp add: new_events_append)
  with r show ?thesis by blast
qed

theorem SendRequest_all_attempts_fail_witness:
  "\<exists>w'. SendRequest refused get_data (start (example_client 2)) =
           Some (Return (None, Some (Error ''connection refused'')), w') \<and>
         attempts (new_events (start (example_client 2)) w') = 3"
proof -
  have a: "sint (MaxRetries (client (start (example_client 2) :: string world))) = int 2"
    by (simp add: example_client_simps)
  have b: "MaxRetries (client (start (example_client 2) :: string world)) \<noteq> MaxInt64"
    by (simp add: example_client_simps MaxInt64_def)
  have c: "\<forall>i\<le>2. failed (fst (send refused get_data
             (before_attempt refused get_data (start (example_client 2)) i)))"
    by (simp add: refused_fails)
  have d: "fst (send refused get_data (before_attempt refused get_data (start (example_client 2)) 2)) =
           Return (None, Some (Error ''connection refused''))"
    by (simp add: refused_send [where hc = "\<lparr>Timeout = 10 * Second\<rparr>"] example_client_simps)
  from SendRequest_all_attempts_fail [OF a b c] show ?thesis by (simp add: d)
qed

text \<open>
  C2: the claim says that no sleep follows the final failed attempt. The loop body calls
  \<open>time.Sleep(c.RetryDelay)\<close> after every failed call of \<open>send\<close>, the last one included:
  with \<open>MaxRetries = 0\<close> and a server that refuses the connection, the single attempt is
  followed by a sleep of \<open>RetryDelay\<close> before \<open>SendRequest\<close> returns the error.
\<close>

theorem SendRequest_sleeps_after_last_attempt:
  "SendRequest refused get_data (start (example_client 0)) =
     Some (Return (None, Some (Error ''connection refused'')),
           \<lparr>client = example_client 0, round_trips = 1,
            trace = [Enter_send,
                     Call_NewRequest ''GET'' ''https://api.example.com/data'' [],
                     Call_Do \<lparr>req_Method = ''GET'', req_URL = ''https://api.example.com/data'',
                              req_Header = [''Content-Type'' \<mapsto> [''application/json'']],
                              req_Body = []\<rparr>,
                     Call_Sleep (2 * Second)]\<rparr>)"
proof -
  let ?w = "start (example_client 0) :: string world"
  have s: "send refused get_data ?w =
      (Return (None, Some (Error ''connection refused'')),
       \<lparr>client = example_client 0, round_trips = 1,
        trace = [Enter_send,
                 Call_NewRequest ''GET'' ''https://api.example.com/data'' [],
                 Call_Do \<lparr>req_Method = ''GET'', req_URL = ''https://api.example.com/data'',
                          req_Header = [''Content-Type'' \<mapsto> [''application/json'']],
                          req_Body = []\<rparr>]\<rparr>)"
    by (simp add: send_simps refused_def get_data_def plain_NewRequest_def start_def
        example_client_def NewClient_def emit_def set_headers_def Header_Set_def)
  have "SendRequest_loop refused get_data 0 (None, None) ?w =
        SendRequest_loop refused get_data (0 + 1)
          (case fst (send refused get_data ?w) of Return r \<Rightarrow> r | Panic \<Rightarrow> (None, None))
          (before_attempt refused get_data ?w (Suc 0))"
    by (rule loop_retry) (simp_all add: example_client_simps s)
  also have "\<dots> = Some (Return (case fst (send refused get_data ?w) of Return r \<Rightarrow> r | Panic \<Rightarrow> (None, None)),
                         before_attempt refused get_data ?w (Suc 0))"
    using not_succ_sle [of 0] by (intro loop_exit) (simp add: example_client_simps MaxInt64_def)
  finally show ?thesis
    by (simp add: SendRequest_def before_attempt_1 s time_Sleep_def emit_def
        example_client_simps) (simp add: start_def example_client_def NewClient_def)
qed

text \<open>
  C3: when the body is nil or marshals, the request is constructed, and the round trip and
  the read of the whole body succeed, \<open>send\<close> returns a response built from the status
  code, the headers and the body, with a nil error, whatever the status code is; and
  \<open>SendRequest\<close> (which makes a first attempt when \<open>MaxRetries \<ge> 0\<close>) returns the result of
  that single call of \<open>send\<close>, without sleeping.
\<close>

theorem send_any_status_succeeds:
  assumes "case Body req of None \<Rightarrow> reqBody = [] | Some b \<Rightarrow> json_Marshal E b = Inr reqBody"
    and "http_NewRequest E (Method req) (BaseURL (client w) @ Endpoint req) reqBody = Inr request0"
    and "HTTPClient (client w) = Some hc"
    and "transport E (round_trips w) (set_headers E (Headers req) request0) = Inr response"
    and "body_stream response = Inr respBody"
    and "0 \<le>s MaxRetries (client w)"
  shows "fst (send E req w) =
           Return (Some \<lparr>StatusCode = http_StatusCode response,
                         resp_Headers = http_Header response,
                         resp_Body = respBody\<rparr>, None) \<and>
         SendRequest E req w = Some (send E req w) \<and>
         attempts (new_events w (snd (send E req w))) = 1 \<and>
         sleeps (new_events w (snd (send E req w))) = 0"
proof -
  have r: "fst (send E req w) =
           Return (Some \<lparr>StatusCode = http_StatusCode response,
                         resp_Headers = http_Header response,
                         resp_Body = respBody\<rparr>, None)"
    using assms(1-5) by (cases "Body req") (simp_all add: send_simps)
  then have "\<not> failed (fst (send E req w))" by simp
  with assms(6) have "SendRequest E req w = Some (send E req w)"
    by (simp add: SendRequest_def loop_nonfail)
  moreover from send_events [of E req w] obtain es
    where "trace (snd (send E req w)) = trace w @ es" "attempts es = 1" "sleeps es = 0"
    by blast
  then have "attempts (new_events w (snd (send E req w))) = 1"
    "sleeps (new_events w (snd (send E req w))) = 0"
    by (simp_all add: new_events_append)
  ultimately show ?thesis using r by simp
qed

theorem send_any_status_succeeds_witness:
  "fst (send answers_404 get_data (start (example_client 3))) =
     Return (Some \<lparr>StatusCode = 404, resp_Headers = Map.empty, resp_Body = ''not found''\<rparr>, None) \<and>
   SendRequest answers_404 get_data (start (example_client 3)) =
     Some (send answers_404 get_data (start (example_client 3))) \<and>
   attempts (new_events (start (example_client 3))
     (snd (send answers_404 get_data (start (example_client 3))))) = 1 \<and>
   sleeps (new_events (start (example_client 3))
     (snd (send answers_404 get_data (start (example_client 3))))) = 0"
proof -
  let ?w = "start (example_client 3) :: string world"
  let ?rq = "\<lparr>req_Method = ''GET'', req_URL = ''https://api.example.com/data'',
              req_Header = Map.empty, req_Body = []\<rparr>"
  have a: "case Body get_data of None \<Rightarrow> [] = [] | Some b \<Rightarrow> json_Marshal answers_404 b = Inr []"
    by (simp add: get_data_def)
  have b: "http_NewRequest answers_404 (Method get_data) (BaseURL (client ?w) @ Endpoint get_data) []
           = Inr ?rq"
    by (simp add: answers_404_def refused_def plain_NewRequest_def get_data_def start_def
        example_client_def NewClient_def)
  have c: "HTTPClient (client ?w) = Some \<lparr>Timeout = 10 * Second\<rparr>"
    by (simp add: example_client_simps)
  have d: "transport answers_404 (round_trips ?w) (set_headers answers_404 (Headers get_data) ?rq)
           = Inr not_found"
    by (simp add: answers_404_def)
  have e: "body_stream not_found = Inr ''not found''"
    by (simp add: not_found_def)
  have f: "0 \<le>s MaxRetries (client ?w)"
    by (simp add: example_client_simps word_sle_eq)
  from send_any_status_succeeds [OF a b c d e f] show ?thesis
    by (simp add: not_found_def)
qed

text \<open>
  C4: the loop looks only at whether the error is nil. Whatever error \<open>e\<close> a call of \<open>send\<close>
  returns while \<open>attempt \<le> MaxRetries\<close>, the loop sleeps and goes on with \<open>attempt + 1\<close>,
  keeping \<open>e\<close> only as the current value of \<open>err\<close>; and when \<open>SendRequest\<close> returns an
  error, the calls number \<open>0\<close> to \<open>MaxRetries\<close> of \<open>send\<close> have all failed and the response
  and the error returned are those of the last of them. When the calls number \<open>0\<close> to
  \<open>MaxRetries\<close> all fail (and \<open>MaxRetries\<close> is not the largest \<open>int\<close>), \<open>SendRequest\<close> does
  return.
\<close>

theorem SendRequest_returns_last_error:
  "(attempt \<le>s MaxRetries (client w) \<and> fst (send E req w) = Return (r, Some e) \<longrightarrow>
      SendRequest_loop E req attempt res w =
      SendRequest_loop E req (attempt + 1) (r, Some e)
        (time_Sleep (RetryDelay (client w)) (snd (send E req w)))) \<and>
   (SendRequest E req w = Some (Return (response, Some err), w') \<longrightarrow>
      (\<exists>N. sint (MaxRetries (client w)) = int N \<and>
           (\<forall>i\<le>N. failed (fst (send E req (before_attempt E req w i)))) \<and>
           fst (send E req (before_attempt E req w N)) = Return (response, Some err) \<and>
           w' = before_attempt E req w (Suc N))) \<and>
   (0 \<le>s MaxRetries (client w) \<and> MaxRetries (client w) \<noteq> MaxInt64 \<and>
    (\<forall>i\<le>nat (sint (MaxRetries (client w))).
        failed (fst (send E req (before_attempt E req w i)))) \<longrightarrow>
      (\<exists>y. SendRequest E req w = Some y))"
proof (intro conjI impI)
  assume "attempt \<le>s MaxRetries (client w) \<and> fst (send E req w) = Return (r, Some e)"
  then show "SendRequest_loop E req attempt res w =
      SendRequest_loop E req (attempt + 1) (r, Some e)
        (time_Sleep (RetryDelay (client w)) (snd (send E req w)))"
    using loop_retry [of attempt w E req res] by (simp add: before_attempt_1)
next
  let ?M = "MaxRetries (client w)"
  let ?f = "\<lambda>i. failed (fst (send E req (before_attempt E req w i)))"
  assume ret: "SendRequest E req w = Some (Return (response, Some err), w')"
  then have loop: "SendRequest_loop E req 0 (None, None) w = Some (Return (response, Some err), w')"
    by (simp add: SendRequest_def)
  have nonneg: "0 \<le>s ?M"
  proof (rule ccontr)
    assume "\<not> 0 \<le>s ?M"
    then have "SendRequest_loop E req 0 (None, None) w = Some (Return (None, None), w)"
      by (rule loop_exit)
    with loop show False by simp
  qed
  define N where "N = nat (sint ?M)"
  have N: "sint ?M = int N" using nonneg by (simp add: N_def word_sle_eq)
  have notmax: "?M \<noteq> MaxInt64"
  proof
    assume "?M = MaxInt64"
    with loop_MaxInt64 [OF loop] obtain j
      where "\<not> ?f j" "(Return (response, Some err), w') = send E req (before_attempt E req w j)"
      by blast
    then show False by (metis failed.simps(1) fst_conv)
  qed
  have all: "\<forall>i\<le>N. ?f i"
  proof (rule ccontr)
    assume "\<not> (\<forall>i\<le>N. ?f i)"
    then obtain i0 where i0: "i0 \<le> N" "\<not> ?f i0" by blast
    define j where "j = (LEAST i. \<not> ?f i)"
    have j: "\<not> ?f j" unfolding j_def using i0(2) by (rule LeastI)
    have before: "\<forall>i<j. ?f i" unfolding j_def using not_less_Least by blast
    have "j \<le> i0" unfolding j_def using i0(2) by (rule Least_le)
    with i0(1) N have "sint (0 :: go_int) + int j \<le> sint ?M" by simp
    from loop_first_nonfail [OF this before j, of "(None, None)"] loop
    have "send E req (before_attempt E req w j) = (Return (response, Some err), w')" by simp
    with j show False by simp
  qed
  have "sint (0 :: go_int) + int N = sint ?M" using N by simp
  from loop_all_fail [OF this notmax all, of "(None, None)"] loop
  have "fst (send E req (before_attempt E req w N)) = Return (response, Some err)"
    and "w' = before_attempt E req w (Suc N)" by simp_all
  with N all show "\<exists>N. sint ?M = int N \<and> (\<forall>i\<le>N. ?f i) \<and>
           fst (send E req (before_attempt E req w N)) = Return (response, Some err) \<and>
           w' = before_attempt E req w (Suc N)" by blast
next
  let ?M = "MaxRetries (client w)"
  assume h: "0 \<le>s ?M \<and> ?M \<noteq> MaxInt64 \<and>
    (\<forall>i\<le>nat (sint ?M). failed (fst (send E req (before_attempt E req w i))))"
  then have "sint (0 :: go_int) + int (nat (sint ?M)) = sint ?M"
    by (simp add: word_sle_eq)
  from loop_all_fail [OF this, of E req "(None, None)"] h
  show "\<exists>y. SendRequest E req w = Some y" by (simp add: SendRequest_def)
qed

theorem SendRequest_returns_last_error_witness:
  "SendRequest_loop changing_errors get_data 0 (None, None) (start (example_client 1)) =
   SendRequest_loop changing_errors get_data (0 + 1) (None, Some (Error ''timeout''))
     (time_Sleep (RetryDelay (client (start (example_client 1) :: string world)))
        (snd (send changing_errors get_data (start (example_client 1))))) \<and>
   (\<exists>w'. SendRequest changing_errors get_data (start (example_client 1)) =
      Some (Return (None, Some (Error ''connection reset'')), w'))"
proof -
  let ?E = changing_errors
  let ?w = "start (example_client 1) :: string world"
  let ?hc = "\<lparr>Timeout = 10 * Second\<rparr>"
  have rt: "round_trips (before_attempt ?E get_data ?w i) = i" for i
    by (rule example_round_trips) (rule example_env_simps)
  have hc: "HTTPClient (client (before_attempt ?E get_data ?w i)) = Some ?hc" for i
    by (simp add: example_client_simps)
  have e0: "fst (send ?E get_data (before_attempt ?E get_data ?w 0)) = Return (None, Some (Error ''timeout''))"
    by (rule get_data_transport_error [OF example_env_simps(4) hc])
       (simp add: example_transport start_simps)
  have e1: "fst (send ?E get_data (before_attempt ?E get_data ?w 1)) =
            Return (None, Some (Error ''connection reset''))"
    by (rule get_data_transport_error [OF example_env_simps(4) hc])
       (simp add: example_transport rt)
  have le: "(0 :: go_int) \<le>s MaxRetries (client ?w)"
    by (simp add: example_client_simps word_sle_eq)
  have nm: "MaxRetries (client ?w) \<noteq> MaxInt64"
    by (simp add: example_client_simps MaxInt64_def)
  have all: "\<forall>i\<le>nat (sint (MaxRetries (client ?w))).
      failed (fst (send ?E get_data (before_attempt ?E get_data ?w i)))"
  proof (intro allI impI)
    fix i assume "i \<le> nat (sint (MaxRetries (client ?w)))"
    then have "i = 0 \<or> i = 1" by (auto simp: example_client_simps)
    then show "failed (fst (send ?E get_data (before_attempt ?E get_data ?w i)))"
      using e0 e1 by auto
  qed
  note inst = SendRequest_returns_last_error
    [of 0 ?w ?E get_data None "Error ''timeout''" "(None, None)"]
  from inst le e0 have step: "SendRequest_loop ?E get_data 0 (None, None) ?w =
      SendRequest_loop ?E get_data (0 + 1) (None, Some (Error ''timeout''))
        (time_Sleep (RetryDelay (client ?w)) (snd (send ?E get_data ?w)))"
    by simp
  from inst le nm all obtain y where y: "SendRequest ?E get_data ?w = Some y" by blast
  obtain out w' where yy: "y = (out, w')" by (cases y)
  have "out = Return (None, Some (Error ''connection reset''))"
  proof (cases out rule: failed_cases)
    case (fail r e)
    with SendRequest_returns_last_error
      [of 0 ?w ?E get_data None "Error ''timeout''" "(None, None)" r e w'] y yy
    obtain N where "sint (MaxRetries (client ?w)) = int N"
      and "fst (send ?E get_data (before_attempt ?E get_data ?w N)) = Return (r, Some e)"
      by blast
    then have "N = 1" by (simp add: example_client_simps)
    with \<open>fst (send ?E get_data (before_attempt ?E get_data ?w N)) = Return (r, Some e)\<close> e1 fail
    show ?thesis by simp
  next
    case (ok r)
    have "sint (0 :: go_int) + int 1 = sint (MaxRetries (client ?w))"
      by (simp add: example_client_simps)
    from loop_all_fail [OF this nm, of ?E get_data "(None, None)"] all y yy ok e1
    show ?thesis by (simp add: SendRequest_def example_client_simps)
  next
    case panic
    have "sint (0 :: go_int) + int 1 = sint (MaxRetries (client ?w))"
      by (simp add: example_client_simps)
    from loop_all_fail [OF this nm, of ?E get_data "(None, None)"] all y yy panic e1
    show ?thesis by (simp add: SendRequest_def example_client_simps)
  qed
  with y yy step show ?thesis by blast
qed

text \<open>
  C5: if the calls number \<open>0\<close> to \<open>k - 2\<close> of \<open>send\<close> fail and call number \<open>k - 1\<close> (the
  \<open>k\<close>-th, with \<open>1 \<le> k \<le> MaxRetries + 1\<close>) returns a nil error, \<open>SendRequest\<close> returns the
  response of that call with a nil error, in the state in which that call of \<open>send\<close> ended:
  \<open>k\<close> calls of \<open>send\<close> and \<open>k - 1\<close> sleeps have been made, none of them since the \<open>k\<close>-th
  call began.
\<close>

theorem SendRequest_first_success:
  assumes "1 \<le> k" and "int k \<le> sint (MaxRetries (client w)) + 1"
    and "\<forall>i<k - 1. failed (fst (send E req (before_attempt E req w i)))"
    and "send E req (before_attempt E req w (k - 1)) = (Return (response, None), w')"
  shows "SendRequest E req w = Some (Return (response, None), w') \<and>
         attempts (new_events w w') = k \<and>
         sleeps (new_events w w') = k - 1 \<and>
         sleeps (new_events (before_attempt E req w (k - 1)) w') = 0"
proof -
  let ?wk = "before_attempt E req w (k - 1)"
  have a: "sint (0 :: go_int) + int (k - 1) \<le> sint (MaxRetries (client w))"
    using assms(1,2) by simp
  have b: "\<not> failed (fst (send E req ?wk))" using assms(4) by simp
  from loop_first_nonfail [OF a assms(3) b, of "(None, None)"] assms(4)
  have r: "SendRequest E req w = Some (Return (response, None), w')"
    by (simp add: SendRequest_def)
  have w': "w' = snd (send E req ?wk)" using assms(4) by simp
  from after_attempt_events [of E req w "k - 1"] obtain es
    where "trace (snd (send E req ?wk)) = trace w @ es" "attempts es = Suc (k - 1)"
      "sleeps es = k - 1" by blast
  then have c: "attempts (new_events w w') = k" "sleeps (new_events w w') = k - 1"
    using assms(1) by (simp_all add: w' new_events_append)
  from send_events [of E req ?wk] obtain es'
    where "trace (snd (send E req ?wk)) = trace ?wk @ es'" "sleeps es' = 0" by blast
  then have d: "sleeps (new_events ?wk w') = 0"
    by (simp add: w' new_events_append)
  from r c d show ?thesis by simp
qed

theorem SendRequest_first_success_witness:
  "SendRequest flaky get_data (start (example_client 3)) =
     Some (Return (Some \<lparr>StatusCode = 404, resp_Headers = Map.empty, resp_Body = ''not found''\<rparr>, None),
           snd (send flaky get_data (before_attempt flaky get_data (start (example_client 3)) 2))) \<and>
   attempts (new_events (start (example_client 3))
     (snd (send flaky get_data (before_attempt flaky get_data (start (example_client 3)) 2)))) = 3 \<and>
   sleeps (new_events (start (example_client 3))
     (snd (send flaky get_data (before_attempt flaky get_data (start (example_client 3)) 2)))) = 2 \<and>
   sleeps (new_events (before_attempt flaky get_data (start (example_client 3)) 2)
     (snd (send flaky get_data (before_attempt flaky get_data (start (example_client 3)) 2)))) = 0"
proof -
  let ?E = flaky
  let ?w = "start (example_client 3) :: string world"
  let ?hc = "\<lparr>Timeout = 10 * Second\<rparr>"
  let ?resp = "\<lparr>StatusCode = 404, resp_Headers = Map.empty, resp_Body = ''not found''\<rparr>"
  have rt: "round_trips (before_attempt ?E get_data ?w i) = i" for i
    by (rule example_round_trips) (rule example_env_simps)
  have hc: "HTTPClient (client (before_attempt ?E get_data ?w i)) = Some ?hc" for i
    by (simp add: example_client_simps)
  have fails: "failed (fst (send ?E get_data (before_attempt ?E get_data ?w i)))" if "i < 2" for i
  proof -
    have "fst (send ?E get_data (before_attempt ?E get_data ?w i)) =
          Return (None, Some (Error ''connection refused''))"
      by (rule get_data_transport_error [OF example_env_simps(3) hc])
         (simp add: example_transport rt that)
    then show ?thesis by simp
  qed
  have ok: "fst (send ?E get_data (before_attempt ?E get_data ?w 2)) = Return (Some ?resp, None)"
    by (rule get_data_not_found [OF example_env_simps(3) hc]) (simp add: example_transport rt)
  have a: "(1 :: nat) \<le> 3" by simp
  have b: "int 3 \<le> sint (MaxRetries (client ?w)) + 1"
    by (simp add: example_client_simps)
  have c: "\<forall>i<3 - 1. failed (fst (send ?E get_data (before_attempt ?E get_data ?w i)))"
    using fails by simp
  have d: "send ?E get_data (before_attempt ?E get_data ?w (3 - 1)) =
           (Return (Some ?resp, None), snd (send ?E get_data (before_attempt ?E get_data ?w 2)))"
    using ok by (simp add: prod_eq_iff)
  from SendRequest_first_success [OF a b c d] show ?thesis by simp
qed

text \<open>
  C6: the URL that \<open>send\<close> hands to \<open>http.NewRequest\<close> is \<open>BaseURL\<close> followed by
  \<open>Endpoint\<close>, nothing else: every call of \<open>http.NewRequest\<close> that \<open>send\<close> makes has that
  URL; when the body is nil or marshals the call is made; and the request that
  \<open>HTTPClient.Do\<close> receives is the one \<open>http.NewRequest\<close> built for that URL, with the
  headers set.
\<close>

theorem send_target_url:
  "(\<forall>m u b. Call_NewRequest m u b \<in> set (new_events w (snd (send E req w))) \<longrightarrow>
      u = BaseURL (client w) @ Endpoint req) \<and>
   ((case Body req of None \<Rightarrow> reqBody = [] | Some b \<Rightarrow> json_Marshal E b = Inr reqBody) \<longrightarrow>
      Call_NewRequest (Method req) (BaseURL (client w) @ Endpoint req) reqBody
        \<in> set (new_events w (snd (send E req w))) \<and>
      (\<forall>request0 hc.
          http_NewRequest E (Method req) (BaseURL (client w) @ Endpoint req) reqBody = Inr request0 \<and>
          HTTPClient (client w) = Some hc \<longrightarrow>
          Call_Do (set_headers E (Headers req) request0)
            \<in> set (new_events w (snd (send E req w)))))"
proof (intro conjI allI impI)
  fix m u b
  assume h: "Call_NewRequest m u b \<in> set (new_events w (snd (send E req w)))"
  from send_events_shape [of E req w] obtain es
    where t: "trace (snd (send E req w)) = trace w @ Enter_send # es"
      and p: "\<forall>e\<in>set es. \<forall>m u b. e = Call_NewRequest m u b \<longrightarrow>
                u = BaseURL (client w) @ Endpoint req"
    by blast
  from t have "new_events w (snd (send E req w)) = Enter_send # es"
    by (rule new_events_append)
  with h have "Call_NewRequest m u b \<in> set es" by simp
  with p show "u = BaseURL (client w) @ Endpoint req" by blast
next
  assume "case Body req of None \<Rightarrow> reqBody = [] | Some b \<Rightarrow> json_Marshal E b = Inr reqBody"
  then show "Call_NewRequest (Method req) (BaseURL (client w) @ Endpoint req) reqBody
        \<in> set (new_events w (snd (send E req w)))"
    by (cases "Body req") (simp_all add: send_simps new_events_def split: send_split)
next
  fix request0 hc
  assume "case Body req of None \<Rightarrow> reqBody = [] | Some b \<Rightarrow> json_Marshal E b = Inr reqBody"
    and "http_NewRequest E (Method req) (BaseURL (client w) @ Endpoint req) reqBody = Inr request0 \<and>
          HTTPClient (client w) = Some hc"
  then show "Call_Do (set_headers E (Headers req) request0)
            \<in> set (new_events w (snd (send E req w)))"
    by (cases "Body req") (simp_all add: send_simps new_events_def split: send_split)
qed

theorem send_target_url_witness:
  "Call_NewRequest ''GET'' ''https://api.example.com//data'' []
     \<in> set (new_events (start ((example_client 0)\<lparr>BaseURL := ''https://api.example.com/''\<rparr>))
         (snd (send refused get_data
            (start ((example_client 0)\<lparr>BaseURL := ''https://api.example.com/''\<rparr>))))) \<and>
   Call_Do \<lparr>req_Method = ''GET'', req_URL = ''https://api.example.com//data'',
            req_Header = [''Content-Type'' \<mapsto> [''application/json'']], req_Body = []\<rparr>
     \<in> set (new_events (start ((example_client 0)\<lparr>BaseURL := ''https://api.example.com/''\<rparr>))
         (snd (send refused get_data
            (start ((example_client 0)\<lparr>BaseURL := ''https://api.example.com/''\<rparr>)))))"
proof -
  let ?w = "start ((example_client 0)\<lparr>BaseURL := ''https://api.example.com/''\<rparr>) :: string world"
  let ?rq = "\<lparr>req_Method = ''GET'', req_URL = ''https://api.example.com//data'',
              req_Header = Map.empty, req_Body = []\<rparr>"
  have a: "case Body get_data of None \<Rightarrow> [] = [] | Some b \<Rightarrow> json_Marshal refused b = Inr []"
    by (simp add: get_data_def)
  have u: "BaseURL (client ?w) @ Endpoint get_data = ''https://api.example.com//data''"
    by (simp add: start_simps get_data_def)
  have b: "http_NewRequest refused (Method get_data) (BaseURL (client ?w) @ Endpoint get_data) []
             = Inr ?rq"
    by (simp add: u) (simp add: refused_def plain_NewRequest_def get_data_def)
  have c: "HTTPClient (client ?w) = Some \<lparr>Timeout = 10 * Second\<rparr>"
    by (simp add: start_simps example_client_def NewClient_def)
  have d: "set_headers refused (Headers get_data) ?rq =
           \<lparr>req_Method = ''GET'', req_URL = ''https://api.example.com//data'',
            req_Header = [''Content-Type'' \<mapsto> [''application/json'']], req_Body = []\<rparr>"
    by (simp add: set_headers_def Header_Set_def refused_def get_data_def)
  from send_target_url [of ?w refused get_data "[]"] a b c
  have "Call_NewRequest (Method get_data) (BaseURL (client ?w) @ Endpoint get_data) []
          \<in> set (new_events ?w (snd (send refused get_data ?w)))"
    and "Call_Do (set_headers refused (Headers get_data) ?rq)
          \<in> set (new_events ?w (snd (send refused get_data ?w)))"
    by blast+
  then show ?thesis by (simp add: u d) (simp add: get_data_def)
qed

text \<open>
  C7: \<open>json.Marshal\<close> is called exactly when \<open>req.Body\<close> is not nil. With a nil body no
  call of \<open>json.Marshal\<close> is made and the result of \<open>send\<close> is the same whatever
  \<open>json.Marshal\<close> would do; with a body \<open>b\<close> the first thing \<open>send\<close> does is to marshal
  \<open>b\<close>; and when that fails, \<open>send\<close> returns a nil response and that error at once: the
  only calls made are the entry into \<open>send\<close> and \<open>json.Marshal\<close>, so no request has been
  constructed and no round trip made.
\<close>

theorem send_marshals_iff_Body:
  "(Body req = None \<longrightarrow>
      (\<forall>e\<in>set (new_events w (snd (send E req w))). \<not> is_Marshal e) \<and>
      send (E\<lparr>json_Marshal := m\<rparr>) req w = send E req w) \<and>
   (\<forall>b. Body req = Some b \<longrightarrow>
      (\<exists>es. new_events w (snd (send E req w)) = Enter_send # Call_Marshal b # es)) \<and>
   (\<forall>b err. Body req = Some b \<and> json_Marshal E b = Inl err \<longrightarrow>
      send E req w = (Return (None, Some err), emit (Call_Marshal b) (emit Enter_send w)))"
proof (intro conjI allI impI ballI)
  fix e
  assume n: "Body req = None" and e: "e \<in> set (new_events w (snd (send E req w)))"
  from send_events_shape [of E req w] n obtain es
    where t: "trace (snd (send E req w)) = trace w @ Enter_send # es"
      and p: "\<forall>e\<in>set es. \<not> is_Marshal e"
    by blast
  from t have "new_events w (snd (send E req w)) = Enter_send # es"
    by (rule new_events_append)
  with e p show "\<not> is_Marshal e" by auto
next
  assume n: "Body req = None"
  have "Header_Set (E\<lparr>json_Marshal := m\<rparr>) key val = Header_Set E key val" for key val
    by (rule ext) (simp add: Header_Set_def)
  then have "set_headers (E\<lparr>json_Marshal := m\<rparr>) hs rq = set_headers E hs rq" for hs rq
    by (simp add: set_headers_def)
  with n show "send (E\<lparr>json_Marshal := m\<rparr>) req w = send E req w"
    by (simp add: send_simps split: send_split)
next
  fix b
  assume "Body req = Some b"
  then show "\<exists>es. new_events w (snd (send E req w)) = Enter_send # Call_Marshal b # es"
    by (simp add: send_simps new_events_def split: send_split)
next
  fix b err
  assume "Body req = Some b \<and> json_Marshal E b = Inl err"
  then show "send E req w = (Return (None, Some err), emit (Call_Marshal b) (emit Enter_send w))"
    by (simp add: send_simps)
qed

theorem send_marshals_iff_Body_witness:
  "filter is_Marshal (new_events (start (example_client 0))
        (snd (send unmarshalable get_data (start (example_client 0))))) = [] \<and>
   send (unmarshalable\<lparr>json_Marshal := Inr\<rparr>) get_data (start (example_client 0)) =
     send unmarshalable get_data (start (example_client 0)) \<and>
   send unmarshalable post_data (start (example_client 0)) =
     (Return (None, Some (Error ''json: unsupported type'')),
      emit (Call_Marshal ''payload'') (emit Enter_send (start (example_client 0))))"
proof -
  let ?w = "start (example_client 0) :: string world"
  have a: "Body get_data = None" by (simp add: get_data_def)
  have b: "Body post_data = Some ''payload'' \<and>
           json_Marshal unmarshalable ''payload'' = Inl (Error ''json: unsupported type'')"
    by (simp add: post_data_def unmarshalable_def)
  from send_marshals_iff_Body [of get_data ?w unmarshalable Inr] a
  have n: "\<forall>e\<in>set (new_events ?w (snd (send unmarshalable get_data ?w))). \<not> is_Marshal e"
    and i: "send (unmarshalable\<lparr>json_Marshal := Inr\<rparr>) get_data ?w = send unmarshalable get_data ?w"
    by blast+
  from n have "filter is_Marshal (new_events ?w (snd (send unmarshalable get_data ?w))) = []"
    by (rule filter_none)
  moreover from send_marshals_iff_Body [of post_data ?w unmarshalable Inr] b
  have "send unmarshalable post_data ?w =
     (Return (None, Some (Error ''json: unsupported type'')),
      emit (Call_Marshal ''payload'') (emit Enter_send ?w))"
    by blast
  ultimately show ?thesis using i by (intro conjI)
qed

text \<open>
  C8: with \<open>Debug\<close> false, a call of \<open>send\<close> makes no call of \<open>fmt.Printf\<close>, whatever its
  outcome, and so does a whole call of \<open>SendRequest\<close>, with all its attempts.
\<close>

theorem send_silent_without_Debug:
  assumes "\<not> Debug (client w)"
  shows "filter is_Printf (new_events w (snd (send E req w))) = [] \<and>
         (\<forall>y. SendRequest E req w = Some y \<longrightarrow> filter is_Printf (new_events w (snd y)) = [])"
proof (intro conjI allI impI)
  from send_events [of E req w] assms obtain es
    where "trace (snd (send E req w)) = trace w @ es" "filter is_Printf es = []" by blast
  then show "filter is_Printf (new_events w (snd (send E req w))) = []"
    by (simp add: new_events_append)
next
  fix y
  assume "SendRequest E req w = Some y"
  then have "SendRequest_loop E req 0 (None, None) w = Some y"
    by (simp add: SendRequest_def)
  from SendRequest_loop_quiet [OF this assms]
  show "filter is_Printf (new_events w (snd y)) = []" .
qed

theorem send_silent_without_Debug_witness:
  "filter is_Printf (new_events (start (example_client 0))
     (snd (send refused get_data (start (example_client 0))))) = [] \<and>
   filter is_Printf (new_events (start (example_client 0))
     (snd (send answers_404 get_data (start (example_client 0))))) = [] \<and>
   filter is_Printf (new_events (start (example_client 0))
     (snd (the (SendRequest refused get_data (start (example_client 0)))))) = []"
proof -
  let ?w = "start (example_client 0) :: string world"
  have d: "\<not> Debug (client ?w)" by (simp add: example_client_simps)
  have r: "SendRequest refused get_data ?w = Some (the (SendRequest refused get_data ?w))"
    using refused_returns by auto
  from send_silent_without_Debug [OF d, of refused get_data]
    send_silent_without_Debug [OF d, of answers_404 get_data] r
  show ?thesis by blast
qed

text \<open>
  C9, as written: two calls of \<open>send\<close> with equal client state, equal request and identical
  transport behaviour return equal results. This fails when two keys of \<open>req.Headers\<close>
  become the same name in \<open>Header.Set\<close>: the value that the request carries is then the
  one that \<open>range\<close> visits last, and Go does not fix that order. The request with the keys
  \<open>content-type\<close> and \<open>Content-Type\<close>, sent twice from the same state to the same server,
  is answered 404 when \<open>range\<close> visits \<open>Content-Type\<close> last and 415 when it visits
  \<open>content-type\<close> last.
\<close>

theorem send_depends_on_range_order:
  "same_request colliding_a colliding_b \<and>
   fst (send picky colliding_a (start (example_client 0))) =
     Return (Some \<lparr>StatusCode = 404, resp_Headers = Map.empty, resp_Body = ''not found''\<rparr>, None) \<and>
   fst (send picky colliding_b (start (example_client 0))) =
     Return (Some \<lparr>StatusCode = 415, resp_Headers = Map.empty, resp_Body = ''unsupported''\<rparr>, None) \<and>
   fst (send picky colliding_a (start (example_client 0))) \<noteq>
   fst (send picky colliding_b (start (example_client 0)))"
proof -
  let ?w = "start (example_client 0) :: string world"
  have s: "same_request colliding_a colliding_b"
    by (simp add: same_request_def colliding_a_def colliding_b_def get_data_def) auto
  have a: "fst (send picky colliding_a ?w) =
     Return (Some \<lparr>StatusCode = 404, resp_Headers = Map.empty, resp_Body = ''not found''\<rparr>, None)"
    by (simp add: send_simps picky_def refused_def colliding_a_def get_data_def
        plain_NewRequest_def set_headers_def Header_Set_def canonical_def not_found_def
        unsupported_def example_client_simps)
  have b: "fst (send picky colliding_b ?w) =
     Return (Some \<lparr>StatusCode = 415, resp_Headers = Map.empty, resp_Body = ''unsupported''\<rparr>, None)"
    by (simp add: send_simps picky_def refused_def colliding_b_def get_data_def
        plain_NewRequest_def set_headers_def Header_Set_def canonical_def not_found_def
        unsupported_def example_client_simps)
  have "fst (send picky colliding_a ?w) \<noteq> fst (send picky colliding_b ?w)"
    by (simp only: a b) simp
  with s a b show ?thesis by (intro conjI)
qed

text \<open>
  C9, amended: neither \<open>send\<close> nor \<open>SendRequest\<close> changes the \<open>Client\<close>; and two calls of
  \<open>send\<close> with the same \<open>Client\<close>, the same request, whatever the orders in which \<open>range\<close>
  visits its \<open>Headers\<close> in the two calls, and a transport that behaves at the round trip of
  the second call as at the round trip of the first, return equal results, provided the
  keys of \<open>Headers\<close> remain distinct names in \<open>Header.Set\<close>. In particular a second call,
  made in the state that the first one left, returns what the first returned.
\<close>

theorem Client_unchanged:
  "client (snd (send E req w)) = client w \<and>
   (\<forall>y. SendRequest E req w = Some y \<longrightarrow> client (snd y) = client w) \<and>
   (client w1 = client w2 \<and> same_request req1 req2 \<and>
    inj_on (CanonicalMIMEHeaderKey E) (fst ` set (Headers req1)) \<and>
    transport E (round_trips w1) = transport E (round_trips w2) \<longrightarrow>
      fst (send E req1 w1) = fst (send E req2 w2)) \<and>
   (same_request req1 req2 \<and>
    inj_on (CanonicalMIMEHeaderKey E) (fst ` set (Headers req1)) \<and>
    transport E (round_trips w) = transport E (round_trips (snd (send E req1 w))) \<longrightarrow>
      fst (send E req1 w) = fst (send E req2 (snd (send E req1 w))))"
proof (intro conjI allI impI)
  show "client (snd (send E req w)) = client w" by (rule send_client)
next
  fix y
  assume "SendRequest E req w = Some y"
  then have "SendRequest_loop E req 0 (None, None) w = Some y"
    by (simp add: SendRequest_def)
  then show "client (snd y) = client w" by (rule SendRequest_loop_client)
next
  assume h: "client w1 = client w2 \<and> same_request req1 req2 \<and>
    inj_on (CanonicalMIMEHeaderKey E) (fst ` set (Headers req1)) \<and>
    transport E (round_trips w1) = transport E (round_trips w2)"
  from h have "client w1 = client w2" by (rule conjunct1)
  moreover from h have "same_request req1 req2" by (rule conjunct1 [OF conjunct2])
  moreover from h have "inj_on (CanonicalMIMEHeaderKey E) (fst ` set (Headers req1))"
    by (rule conjunct1 [OF conjunct2 [OF conjunct2]])
  moreover from h have "transport E (round_trips w1) = transport E (round_trips w2)"
    by (rule conjunct2 [OF conjunct2 [OF conjunct2]])
  ultimately show "fst (send E req1 w1) = fst (send E req2 w2)"
    by (rule send_same_request)
next
  let ?w' = "snd (send E req1 w)"
  assume h: "same_request req1 req2 \<and>
    inj_on (CanonicalMIMEHeaderKey E) (fst ` set (Headers req1)) \<and>
    transport E (round_trips w) = transport E (round_trips ?w')"
  have "client w = client ?w'" by (simp only: send_client)
  moreover from h have "same_request req1 req2" by (rule conjunct1)
  moreover from h have "inj_on (CanonicalMIMEHeaderKey E) (fst ` set (Headers req1))"
    by (rule conjunct1 [OF conjunct2])
  moreover from h have "transport E (round_trips w) = transport E (round_trips ?w')"
    by (rule conjunct2 [OF conjunct2])
  ultimately show "fst (send E req1 w) = fst (send E req2 ?w')"
    by (rule send_same_request)
qed

theorem Client_unchanged_witness:
  "client (snd (send picky accepting_a (start (example_client 0)))) = example_client 0 \<and>
   client (snd (the (SendRequest refused get_data (start (example_client 0))))) = example_client 0 \<and>
   round_trips (snd (send picky accepting_a (start (example_client 0)))) = 1 \<and>
   fst (send picky accepting_a (start (example_client 0))) =
   fst (send picky accepting_b (snd (send picky accepting_a (start (example_client 0))))) \<and>
   fst (send picky accepting_a (start (example_client 0))) =
     Return (Some \<lparr>StatusCode = 404, resp_Headers = Map.empty, resp_Body = ''not found''\<rparr>, None)"
proof -
  let ?w = "start (example_client 0) :: string world"
  let ?w' = "snd (send picky accepting_a ?w)"
  have r: "SendRequest refused get_data ?w = Some (the (SendRequest refused get_data ?w))"
    using refused_returns by auto
  have sr: "same_request accepting_a accepting_b"
    by (simp add: same_request_def accepting_a_def accepting_b_def get_data_def) auto
  have inj: "inj_on (CanonicalMIMEHeaderKey picky) (fst ` set (Headers accepting_a))"
    by (simp add: picky_def accepting_a_def canonical_def)
  have tr: "transport picky (round_trips ?w) = transport picky (round_trips ?w')"
    by (simp add: picky_def)
  have rt: "round_trips ?w' = 1"
    by (simp add: send_simps picky_def refused_def accepting_a_def get_data_def
        plain_NewRequest_def set_headers_def Header_Set_def canonical_def not_found_def
        unsupported_def example_client_simps) (simp add: start_def)
  have v: "fst (send picky accepting_a ?w) =
     Return (Some \<lparr>StatusCode = 404, resp_Headers = Map.empty, resp_Body = ''not found''\<rparr>, None)"
    by (simp add: send_simps picky_def refused_def accepting_a_def get_data_def
        plain_NewRequest_def set_headers_def Header_Set_def canonical_def not_found_def
        unsupported_def example_client_simps)
  note inst1 = Client_unchanged [of picky accepting_a ?w ?w ?w accepting_a accepting_b]
  note inst2 = Client_unchanged [of refused get_data ?w ?w ?w accepting_a accepting_b]
  from inst1 have a1: "client ?w' = client ?w"
    by (rule conjunct1)
  from inst2 have q: "\<forall>y. SendRequest refused get_data ?w = Some y \<longrightarrow> client (snd y) = client ?w"
    by (rule conjunct1 [OF conjunct2])
  have a2: "client (snd (the (SendRequest refused get_data ?w))) = client ?w"
    by (rule q [rule_format, OF r])
  from inst1 have "same_request accepting_a accepting_b \<and>
      inj_on (CanonicalMIMEHeaderKey picky) (fst ` set (Headers accepting_a)) \<and>
      transport picky (round_trips ?w) = transport picky (round_trips ?w') \<longrightarrow>
      fst (send picky accepting_a ?w) = fst (send picky accepting_b ?w')"
    by (rule conjunct2 [OF conjunct2 [OF conjunct2]])
  then have a3: "fst (send picky accepting_a ?w) = fst (send picky accepting_b ?w')"
    using sr inj tr by (elim impE) (intro conjI)
  have s: "client ?w = example_client 0" by (rule start_simps)
  from a1 a2 rt a3 v show ?thesis unfolding s by (intro conjI)
qed

text \<open>
  C10: with \<open>MaxRetries < 0\<close> the loop body never runs: \<open>SendRequest\<close> returns a nil
  response and a nil error in the state it was called in, so no call of \<open>send\<close> and no
  sleep has been made.
\<close>

theorem SendRequest_negative_MaxRetries:
  assumes "MaxRetries (client w) <s 0"
  shows "SendRequest E req w = Some (Return (None, None), w)"
proof -
  from assms have "\<not> 0 \<le>s MaxRetries (client w)"
    by (simp add: word_sle_eq word_sless_alt)
  then show ?thesis by (simp add: SendRequest_def loop_exit)
qed

theorem SendRequest_negative_MaxRetries_witness:
  "SendRequest refused get_data (start (example_client (- 1))) =
     Some (Return (None, None), start (example_client (- 1)))"
proof -
  have "MaxRetries (client (start (example_client (- 1)) :: string world)) <s 0"
    by (simp add: example_client_simps word_sless_alt)
  then show ?thesis by (rule SendRequest_negative_MaxRetries)
qed


end
